theory Spec2Isabelle
  imports Main "HOL-Library.Word"
begin

section \<open>Low-power proximity example: the power-mode scheduler of main.c\<close>

text \<open>
  The development embeds the parts of \<^verbatim>\<open>main.c\<close> that decide the power mode:
  the timer macros, one iteration of the \<^verbatim>\<open>for (;;)\<close> loop of \<^verbatim>\<open>main\<close>, and
  \<^verbatim>\<open>DeepSleepCallback\<close>. Values of type \<^verbatim>\<open>uint32_t\<close> and unsigned macro constants
  are 32-bit words, so \<^verbatim>\<open>++\<close> and \<^verbatim>\<open>-\<close> wrap as they do in C.
\<close>

type_synonym u32 = "32 word"

subsection \<open>User configurable macros\<close>

definition ACTIVE_MODE_REFRESH_RATE :: u32 where
  "ACTIVE_MODE_REFRESH_RATE = 128"

definition ALR_MODE_REFRESH_RATE :: u32 where
  "ALR_MODE_REFRESH_RATE = 32"

definition ACTIVE_MODE_TIMEOUT_SEC :: u32 where
  "ACTIVE_MODE_TIMEOUT_SEC = 5"

definition ALR_MODE_TIMEOUT_SEC :: u32 where
  "ALR_MODE_TIMEOUT_SEC = 5"

definition ACTIVE_MODE_FRAME_SCAN_TIME :: u32 where
  "ACTIVE_MODE_FRAME_SCAN_TIME = 2891"

definition ACTIVE_MODE_PROCESS_TIME :: u32 where
  "ACTIVE_MODE_PROCESS_TIME = 23"

definition ALR_MODE_FRAME_SCAN_TIME :: u32 where
  "ALR_MODE_FRAME_SCAN_TIME = 2891"

definition ALR_MODE_PROCESS_TIME :: u32 where
  "ALR_MODE_PROCESS_TIME = 23"

subsection \<open>Timer macros\<close>

definition ILO_FREQ :: u32 where
  "ILO_FREQ = 40000"

definition TIME_IN_US :: u32 where
  "TIME_IN_US = 1000000"

definition MINIMUM_TIMER :: u32 where
  "MINIMUM_TIMER = TIME_IN_US div ILO_FREQ"

text \<open>
  \<^verbatim>\<open>ACTIVE_MODE_TIMER\<close> and \<^verbatim>\<open>ALR_MODE_TIMER\<close> are defined by two conditional
  blocks of the same shape:
  \<^verbatim>\<open>
  #if ((TIME_IN_US / RATE) > (SCAN_TIME + PROCESS_TIME))
      #define TIMER (TIME_IN_US / RATE - (SCAN_TIME + PROCESS_TIME))
  #elif
      #define TIMER (MINIMUM_TIMER)
  #endif
  \<close>
  \<open>MODE_TIMER\<close> is that block as a function of the three user macros. The condition of
  \<^verbatim>\<open>#if\<close> is evaluated by the preprocessor in \<^verbatim>\<open>uintmax_t\<close>, where the sum of two
  32-bit constants does not wrap, and a division by zero there is an error. The
  replacement text is evaluated where the macro is used, in \<^verbatim>\<open>unsigned int\<close>.
  When the condition of \<^verbatim>\<open>#if\<close> holds, the \<^verbatim>\<open>#elif\<close> group is skipped and its
  missing expression is never looked at. When it fails, the controlling expression of
  \<^verbatim>\<open>#elif\<close> has to be evaluated and there is none: the translation unit is rejected,
  and \<^verbatim>\<open>MINIMUM_TIMER\<close> is not selected.
\<close>

datatype cpp_error = DivisionByZeroInIf | ElifWithNoExpression

definition MODE_TIMER :: "u32 \<Rightarrow> u32 \<Rightarrow> u32 \<Rightarrow> cpp_error + u32" where
  "MODE_TIMER refresh_rate frame_scan_time process_time =
     (if refresh_rate = 0 then Inl DivisionByZeroInIf
      else if unat frame_scan_time + unat process_time < unat (TIME_IN_US div refresh_rate)
      then Inr (TIME_IN_US div refresh_rate - (frame_scan_time + process_time))
      else Inl ElifWithNoExpression)"

text \<open>
  The program that is compiled uses the values the two blocks select for the configured
  macros (lemma \<open>timer_macros_selected\<close> below shows that both blocks select one).
\<close>

definition ACTIVE_MODE_TIMER :: u32 where
  "ACTIVE_MODE_TIMER =
     projr (MODE_TIMER ACTIVE_MODE_REFRESH_RATE ACTIVE_MODE_FRAME_SCAN_TIME ACTIVE_MODE_PROCESS_TIME)"

definition ALR_MODE_TIMER :: u32 where
  "ALR_MODE_TIMER =
     projr (MODE_TIMER ALR_MODE_REFRESH_RATE ALR_MODE_FRAME_SCAN_TIME ALR_MODE_PROCESS_TIME)"

definition ACTIVE_MODE_TIMEOUT :: u32 where
  "ACTIVE_MODE_TIMEOUT = ACTIVE_MODE_REFRESH_RATE * ACTIVE_MODE_TIMEOUT_SEC"

definition ALR_MODE_TIMEOUT :: u32 where
  "ALR_MODE_TIMEOUT = ALR_MODE_REFRESH_RATE * ALR_MODE_TIMEOUT_SEC"

definition TIMEOUT_RESET :: u32 where
  "TIMEOUT_RESET = 0"

text \<open>
  The timer invariant as the specification words it, for comparison with \<open>MODE_TIMER\<close>:
  the maximum of the minimum tick and the period less the scan and process latency,
  over the integers (the difference may be negative).
\<close>

definition TimerReload_spec :: "u32 \<Rightarrow> u32 \<Rightarrow> u32 \<Rightarrow> int" where
  "TimerReload_spec refresh_rate frame_scan_time process_time =
     max (uint MINIMUM_TIMER)
         (uint (TIME_IN_US div refresh_rate) - (uint frame_scan_time + uint process_time))"

subsection \<open>Application state\<close>

text \<open>
  \<^verbatim>\<open>APPLICATION_STATE\<close> is a C enumeration with the values 1, 2 and 3. The variable
  \<^verbatim>\<open>appState\<close> can hold any value of the underlying integer type, which is what the
  \<^verbatim>\<open>default\<close> label of the \<^verbatim>\<open>switch\<close> is for, so it is modelled as a word.
\<close>

type_synonym APPLICATION_STATE = u32

definition ACTIVE_MODE :: APPLICATION_STATE where
  "ACTIVE_MODE = 1"

definition ALR_MODE :: APPLICATION_STATE where
  "ALR_MODE = 2"

definition WOT_MODE :: APPLICATION_STATE where
  "WOT_MODE = 3"

text \<open>
  Calls that leave \<^verbatim>\<open>main.c\<close> are recorded in order. \<open>Cy_CapSense_ConfigureMsclpTimer\<close>
  carries the reload value it is called with.
\<close>

datatype hw_call =
    Cy_CapSense_ScanAllSlots
  | Cy_CapSense_ScanAllLpSlots
  | Cy_CapSense_IsBusy
  | Cy_SysPm_CpuEnterDeepSleep
  | Cy_SysLib_EnterCriticalSection
  | Cy_SysLib_ExitCriticalSection
  | Cy_CapSense_ProcessAllWidgets
  | Cy_CapSense_ProcessWidget_LOWPOWER0
  | Cy_CapSense_IsAnyWidgetActive
  | Cy_CapSense_IsAnyLpWidgetActive
  | Cy_CapSense_ConfigureMsclpTimer u32
  | UpdateLeds
  | Cy_CapSense_RunTuner

text \<open>
  The state of the loop: the global \<^verbatim>\<open>appState\<close>, the local
  \<^verbatim>\<open>appStateTimeoutCount\<close>, the reload value last given to the MSCLP wake-up timer,
  and the calls made so far.
\<close>

record scheduler =
  appState :: APPLICATION_STATE
  appStateTimeoutCount :: u32
  msclpTimer :: u32
  calls :: "hw_call list"

text \<open>
  What the sensing middleware answers during one iteration: the successive results of
  \<^verbatim>\<open>Cy_CapSense_IsBusy\<close> (\<open>True\<close> for nonzero), and the results of
  \<^verbatim>\<open>Cy_CapSense_IsAnyWidgetActive\<close> and \<^verbatim>\<open>Cy_CapSense_IsAnyLpWidgetActive\<close>.
\<close>

record sample =
  busy :: "bool list"
  anyWidgetActive :: bool
  anyLpWidgetActive :: bool

text \<open>
  Modelled from the spec: \<^verbatim>\<open>CY_ASSERT\<close> is a macro of the peripheral driver library,
  which is not part of the sources. The specification calls a failed assertion fatal
  (abort), so \<^verbatim>\<open>CY_ASSERT(0)\<close> ends the run with \<open>AssertFailed\<close>.
\<close>

datatype error = AssertFailed

definition call :: "hw_call \<Rightarrow> scheduler \<Rightarrow> scheduler" where
  "call c s = s\<lparr>calls := calls s @ [c]\<rparr>"

definition ConfigureMsclpTimer :: "u32 \<Rightarrow> scheduler \<Rightarrow> scheduler" where
  "ConfigureMsclpTimer v s = call (Cy_CapSense_ConfigureMsclpTimer v) (s\<lparr>msclpTimer := v\<rparr>)"

text \<open>
  The wait of the Active and ALR cases, after \<^verbatim>\<open>Cy_SysLib_EnterCriticalSection\<close>:
  \<^verbatim>\<open>
  while (Cy_CapSense_IsBusy(&cy_capsense_context))
  {
      Cy_SysPm_CpuEnterDeepSleep();
      Cy_SysLib_ExitCriticalSection(interruptStatus);
      interruptStatus = Cy_SysLib_EnterCriticalSection();
  }
  \<close>
  The loop has no bound of its own. It consumes the poll results it is given, and if
  every one of them is busy it has not returned: the result is \<open>None\<close>.
\<close>

fun waitWhileBusy :: "bool list \<Rightarrow> scheduler \<Rightarrow> scheduler option" where
  "waitWhileBusy [] s = None"
| "waitWhileBusy (b # bs) s =
     (if b then
        waitWhileBusy bs
          (call Cy_SysLib_EnterCriticalSection
            (call Cy_SysLib_ExitCriticalSection
              (call Cy_SysPm_CpuEnterDeepSleep
                (call Cy_CapSense_IsBusy s))))
      else Some (call Cy_CapSense_IsBusy s))"

text \<open>
  The wait of the WOT case, without a critical section:
  \<^verbatim>\<open>
  while (Cy_CapSense_IsBusy(&cy_capsense_context))
  {
      Cy_SysPm_CpuEnterDeepSleep ();
  }
  \<close>
\<close>

fun waitWhileBusyLp :: "bool list \<Rightarrow> scheduler \<Rightarrow> scheduler option" where
  "waitWhileBusyLp [] s = None"
| "waitWhileBusyLp (b # bs) s =
     (if b then
        waitWhileBusyLp bs (call Cy_SysPm_CpuEnterDeepSleep (call Cy_CapSense_IsBusy s))
      else Some (call Cy_CapSense_IsBusy s))"

text \<open>The body of \<^verbatim>\<open>case ACTIVE_MODE\<close>.\<close>

definition activeMode :: "scheduler \<Rightarrow> sample \<Rightarrow> scheduler option" where
  "activeMode s x =
     (case waitWhileBusy (busy x)
             (call Cy_SysLib_EnterCriticalSection (call Cy_CapSense_ScanAllSlots s)) of
        None \<Rightarrow> None
      | Some s1 \<Rightarrow>
          let s2 = call Cy_CapSense_IsAnyWidgetActive
                     (call Cy_CapSense_ProcessAllWidgets
                       (call Cy_SysLib_ExitCriticalSection s1))
          in if anyWidgetActive x then
               Some (s2\<lparr>appStateTimeoutCount := TIMEOUT_RESET\<rparr>)
             else
               let s3 = s2\<lparr>appStateTimeoutCount := appStateTimeoutCount s2 + 1\<rparr>
               in if ACTIVE_MODE_TIMEOUT < appStateTimeoutCount s3 then
                    Some (ConfigureMsclpTimer ALR_MODE_TIMER
                            (s3\<lparr>appState := ALR_MODE, appStateTimeoutCount := TIMEOUT_RESET\<rparr>))
                  else Some s3)"

text \<open>The body of \<^verbatim>\<open>case ALR_MODE\<close>.\<close>

definition alrMode :: "scheduler \<Rightarrow> sample \<Rightarrow> scheduler option" where
  "alrMode s x =
     (case waitWhileBusy (busy x)
             (call Cy_SysLib_EnterCriticalSection (call Cy_CapSense_ScanAllSlots s)) of
        None \<Rightarrow> None
      | Some s1 \<Rightarrow>
          let s2 = call Cy_CapSense_IsAnyWidgetActive
                     (call Cy_CapSense_ProcessAllWidgets
                       (call Cy_SysLib_ExitCriticalSection s1))
          in if anyWidgetActive x then
               Some (ConfigureMsclpTimer ACTIVE_MODE_TIMER
                       (s2\<lparr>appState := ACTIVE_MODE, appStateTimeoutCount := TIMEOUT_RESET\<rparr>))
             else
               let s3 = s2\<lparr>appStateTimeoutCount := appStateTimeoutCount s2 + 1\<rparr>
               in if ALR_MODE_TIMEOUT < appStateTimeoutCount s3 then
                    Some (s3\<lparr>appState := WOT_MODE, appStateTimeoutCount := TIMEOUT_RESET\<rparr>)
                  else Some s3)"

text \<open>The body of \<^verbatim>\<open>case WOT_MODE\<close>.\<close>

definition wotMode :: "scheduler \<Rightarrow> sample \<Rightarrow> scheduler option" where
  "wotMode s x =
     (case waitWhileBusyLp (busy x) (call Cy_CapSense_ScanAllLpSlots s) of
        None \<Rightarrow> None
      | Some s1 \<Rightarrow>
          let s2 = call Cy_CapSense_IsAnyLpWidgetActive
                     (call Cy_CapSense_ProcessWidget_LOWPOWER0 s1)
          in if anyLpWidgetActive x then
               Some (ConfigureMsclpTimer ACTIVE_MODE_TIMER
                       (s2\<lparr>appState := ACTIVE_MODE, appStateTimeoutCount := TIMEOUT_RESET\<rparr>))
             else
               Some (ConfigureMsclpTimer ALR_MODE_TIMER
                       (s2\<lparr>appState := ALR_MODE, appStateTimeoutCount := TIMEOUT_RESET\<rparr>)))"

text \<open>
  One iteration of \<^verbatim>\<open>for (;;)\<close>: the \<^verbatim>\<open>switch\<close> on \<^verbatim>\<open>appState\<close>, then
  \<^verbatim>\<open>UpdateLeds\<close> and \<^verbatim>\<open>Cy_CapSense_RunTuner\<close> (both enabled in the configuration).
  \<open>None\<close>: the wait for the scan has not returned. \<open>Some (Inl AssertFailed)\<close>: the
  \<^verbatim>\<open>default\<close> label was reached.
\<close>

definition switchAppState :: "scheduler \<Rightarrow> sample \<Rightarrow> (error + scheduler) option" where
  "switchAppState s x =
     (if appState s = ACTIVE_MODE then map_option Inr (activeMode s x)
      else if appState s = ALR_MODE then map_option Inr (alrMode s x)
      else if appState s = WOT_MODE then map_option Inr (wotMode s x)
      else Some (Inl AssertFailed))"

definition step :: "scheduler \<Rightarrow> sample \<Rightarrow> (error + scheduler) option" where
  "step s x =
     (case switchAppState s x of
        None \<Rightarrow> None
      | Some (Inl e) \<Rightarrow> Some (Inl e)
      | Some (Inr s') \<Rightarrow> Some (Inr (call Cy_CapSense_RunTuner (call UpdateLeds s'))))"

text \<open>
  The state on entry to the loop: \<^verbatim>\<open>appState = ACTIVE_MODE\<close>,
  \<^verbatim>\<open>appStateTimeoutCount = 0u\<close>, and the timer configured with
  \<^verbatim>\<open>ACTIVE_MODE_TIMER\<close>. The record of calls starts here.
\<close>

definition initial :: scheduler where
  "initial = \<lparr>appState = ACTIVE_MODE, appStateTimeoutCount = 0,
              msclpTimer = ACTIVE_MODE_TIMER, calls = []\<rparr>"

text \<open>The loop over a finite sequence of samples, stopping where an iteration stops.\<close>

fun run :: "scheduler \<Rightarrow> sample list \<Rightarrow> (error + scheduler) option" where
  "run s [] = Some (Inr s)"
| "run s (x # xs) =
     (case step s x of
        None \<Rightarrow> None
      | Some (Inl e) \<Rightarrow> Some (Inl e)
      | Some (Inr s') \<Rightarrow> run s' xs)"

text \<open>The reload values of the timer configuration calls in a record of calls.\<close>

fun timerCalls :: "hw_call list \<Rightarrow> u32 list" where
  "timerCalls [] = []"
| "timerCalls (Cy_CapSense_ConfigureMsclpTimer v # cs) = v # timerCalls cs"
| "timerCalls (c # cs) = timerCalls cs"

subsection \<open>Deep Sleep callback\<close>

text \<open>
  The callback mode and the status are enumerations of the driver library; the drive
  mode is one of its constants. Only the enumerators the source names are listed, with
  one more constructor each for every other value.
\<close>

datatype cy_en_syspm_callback_mode_t =
    CY_SYSPM_CHECK_READY
  | CY_SYSPM_CHECK_FAIL
  | CY_SYSPM_BEFORE_TRANSITION
  | CY_SYSPM_AFTER_TRANSITION
  | CY_SYSPM_MODE_OTHER nat

datatype cy_en_syspm_status_t = CY_SYSPM_SUCCESS | CY_SYSPM_FAIL

datatype drive_mode = CY_GPIO_DM_ANALOG | CY_GPIO_DM_STRONG_IN_OFF | CY_GPIO_DM_OTHER nat

text \<open>
  \<^verbatim>\<open>DeepSleepCallback\<close> with \<^verbatim>\<open>ENABLE_SPI_SERIAL_LED (1u)\<close>. The first argument is
  the drive mode of the pin \<^verbatim>\<open>CYBSP_SPI_MOSI_PORT, CYBSP_SPI_MOSI_PIN\<close> before the call,
  the result is the returned status and the drive mode after it;
  \<^verbatim>\<open>Cy_GPIO_SetDrivemode\<close> replaces the drive mode of that pin. The parameter
  \<^verbatim>\<open>callbackParams\<close> is not used by the source. \<^verbatim>\<open>retValue\<close> starts as
  \<^verbatim>\<open>CY_SYSPM_FAIL\<close> and every label assigns it.
\<close>

fun DeepSleepCallback ::
  "drive_mode \<Rightarrow> cy_en_syspm_callback_mode_t \<Rightarrow> cy_en_syspm_status_t \<times> drive_mode" where
  "DeepSleepCallback dm CY_SYSPM_CHECK_READY = (CY_SYSPM_SUCCESS, dm)"
| "DeepSleepCallback dm CY_SYSPM_CHECK_FAIL = (CY_SYSPM_SUCCESS, dm)"
| "DeepSleepCallback dm CY_SYSPM_BEFORE_TRANSITION = (CY_SYSPM_SUCCESS, CY_GPIO_DM_ANALOG)"
| "DeepSleepCallback dm CY_SYSPM_AFTER_TRANSITION = (CY_SYSPM_SUCCESS, CY_GPIO_DM_STRONG_IN_OFF)"
| "DeepSleepCallback dm (CY_SYSPM_MODE_OTHER v) = (CY_SYSPM_SUCCESS, dm)"

subsection \<open>The calls of a completed wait\<close>

text \<open>
  For stating what an iteration has called: the calls of the two wait loops when the
  first idle poll comes after \<open>length (takeWhile id bs)\<close> busy ones (lemmas
  \<open>waitWhileBusy_complete\<close> and \<open>waitWhileBusyLp_complete\<close> below).
\<close>

definition waitCalls :: "bool list \<Rightarrow> hw_call list" where
  "waitCalls bs =
     concat (replicate (length (takeWhile id bs))
       [Cy_CapSense_IsBusy, Cy_SysPm_CpuEnterDeepSleep,
        Cy_SysLib_ExitCriticalSection, Cy_SysLib_EnterCriticalSection])
     @ [Cy_CapSense_IsBusy]"

definition waitCallsLp :: "bool list \<Rightarrow> hw_call list" where
  "waitCallsLp bs =
     concat (replicate (length (takeWhile id bs))
       [Cy_CapSense_IsBusy, Cy_SysPm_CpuEnterDeepSleep])
     @ [Cy_CapSense_IsBusy]"

subsection \<open>The invariant of the loop\<close>

text \<open>
  At the head of every iteration the mode is one of the three, and the counter is at most
  the timeout of the mode (it is 0 in WOT mode).
\<close>

definition counter_inv :: "scheduler \<Rightarrow> bool" where
  "counter_inv s \<longleftrightarrow>
     appState s = ACTIVE_MODE \<and> appStateTimeoutCount s \<le> ACTIVE_MODE_TIMEOUT
   \<or> appState s = ALR_MODE \<and> appStateTimeoutCount s \<le> ALR_MODE_TIMEOUT
   \<or> appState s = WOT_MODE \<and> appStateTimeoutCount s = 0"

section \<open>Properties\<close>

subsection \<open>Timer macros\<close>

lemma timer_macros_selected:
  "MODE_TIMER ACTIVE_MODE_REFRESH_RATE ACTIVE_MODE_FRAME_SCAN_TIME ACTIVE_MODE_PROCESS_TIME
     = Inr ACTIVE_MODE_TIMER"
  "MODE_TIMER ALR_MODE_REFRESH_RATE ALR_MODE_FRAME_SCAN_TIME ALR_MODE_PROCESS_TIME
     = Inr ALR_MODE_TIMER"
  by (simp_all add: ACTIVE_MODE_TIMER_def ALR_MODE_TIMER_def MODE_TIMER_def TIME_IN_US_def
      ACTIVE_MODE_REFRESH_RATE_def ACTIVE_MODE_FRAME_SCAN_TIME_def ACTIVE_MODE_PROCESS_TIME_def
      ALR_MODE_REFRESH_RATE_def ALR_MODE_FRAME_SCAN_TIME_def ALR_MODE_PROCESS_TIME_def)

lemma ACTIVE_MODE_TIMER_value: "ACTIVE_MODE_TIMER = 4898"
  by (simp add: ACTIVE_MODE_TIMER_def MODE_TIMER_def TIME_IN_US_def
      ACTIVE_MODE_REFRESH_RATE_def ACTIVE_MODE_FRAME_SCAN_TIME_def ACTIVE_MODE_PROCESS_TIME_def)

lemma ALR_MODE_TIMER_value: "ALR_MODE_TIMER = 28336"
  by (simp add: ALR_MODE_TIMER_def MODE_TIMER_def TIME_IN_US_def
      ALR_MODE_REFRESH_RATE_def ALR_MODE_FRAME_SCAN_TIME_def ALR_MODE_PROCESS_TIME_def)

lemma MINIMUM_TIMER_value: "MINIMUM_TIMER = 25"
  by (simp add: MINIMUM_TIMER_def TIME_IN_US_def ILO_FREQ_def)

lemma ACTIVE_MODE_TIMEOUT_value: "ACTIVE_MODE_TIMEOUT = 640"
  by (simp add: ACTIVE_MODE_TIMEOUT_def ACTIVE_MODE_REFRESH_RATE_def ACTIVE_MODE_TIMEOUT_SEC_def)

lemma ALR_MODE_TIMEOUT_value: "ALR_MODE_TIMEOUT = 160"
  by (simp add: ALR_MODE_TIMEOUT_def ALR_MODE_REFRESH_RATE_def ALR_MODE_TIMEOUT_SEC_def)

text \<open>
  A configuration whose period does not exceed the scan and process time selects no
  value: the \<^verbatim>\<open>#elif\<close> without an expression is reached.
\<close>

lemma elif_rejected: "MODE_TIMER 400 2891 23 = Inl ElifWithNoExpression"
  by (simp add: MODE_TIMER_def TIME_IN_US_def)

text \<open>
  When the period exceeds the scan and process time, the block selects the difference,
  and the 32-bit subtraction does not wrap.
\<close>

lemma MODE_TIMER_margin:
  assumes "refresh_rate \<noteq> 0"
    and "unat frame_scan_time + unat process_time < unat (TIME_IN_US div refresh_rate)"
  shows "MODE_TIMER refresh_rate frame_scan_time process_time
           = Inr (TIME_IN_US div refresh_rate - (frame_scan_time + process_time))"
    and "uint (TIME_IN_US div refresh_rate - (frame_scan_time + process_time))
           = uint (TIME_IN_US div refresh_rate) - (uint frame_scan_time + uint process_time)"
    and "0 < TIME_IN_US div refresh_rate - (frame_scan_time + process_time)"
proof -
  let ?p = "TIME_IN_US div refresh_rate"
  show "MODE_TIMER refresh_rate frame_scan_time process_time
           = Inr (?p - (frame_scan_time + process_time))"
    using assms by (simp add: MODE_TIMER_def)
  have bound: "unat ?p < 2 ^ 32" using unsigned_less [of ?p] by simp
  have sum: "unat (frame_scan_time + process_time) = unat frame_scan_time + unat process_time"
    using assms(2) bound by (intro unat_add_lem [THEN iffD1]) simp
  have lt: "frame_scan_time + process_time < ?p"
    using assms(2) sum by (simp add: word_less_nat_alt)
  show "uint (?p - (frame_scan_time + process_time))
           = uint ?p - (uint frame_scan_time + uint process_time)"
  proof -
    have "uint (frame_scan_time + process_time) \<le> uint ?p"
      using lt by (simp only: word_less_def)
    then have "uint (?p - (frame_scan_time + process_time))
                 = uint ?p - uint (frame_scan_time + process_time)"
      by (rule uint_sub_lem [THEN iffD1])
    moreover have "uint (frame_scan_time + process_time)
                     = uint frame_scan_time + uint process_time"
      by (simp only: uint_nat sum of_nat_add)
    ultimately show ?thesis by (simp only:)
  qed
  show "0 < ?p - (frame_scan_time + process_time)"
    using lt by (simp add: word_gt_0)
qed

subsection \<open>The wait loops\<close>

lemma waitWhileBusy_complete:
  "False \<in> set bs \<Longrightarrow> waitWhileBusy bs s = Some (s\<lparr>calls := calls s @ waitCalls bs\<rparr>)"
proof (induction bs arbitrary: s)
  case Nil
  then show ?case by simp
next
  case (Cons b bs)
  show ?case
  proof (cases b)
    case True
    with Cons.prems have "False \<in> set bs" by simp
    from Cons.IH [OF this] True show ?thesis
      by (simp add: call_def waitCalls_def)
  next
    case False
    then show ?thesis by (simp add: call_def waitCalls_def)
  qed
qed

lemma waitWhileBusy_stuck: "False \<notin> set bs \<Longrightarrow> waitWhileBusy bs s = None"
  by (induction bs arbitrary: s) auto

lemma waitWhileBusyLp_complete:
  "False \<in> set bs \<Longrightarrow> waitWhileBusyLp bs s = Some (s\<lparr>calls := calls s @ waitCallsLp bs\<rparr>)"
proof (induction bs arbitrary: s)
  case Nil
  then show ?case by simp
next
  case (Cons b bs)
  show ?case
  proof (cases b)
    case True
    with Cons.prems have "False \<in> set bs" by simp
    from Cons.IH [OF this] True show ?thesis
      by (simp add: call_def waitCallsLp_def)
  next
    case False
    then show ?thesis by (simp add: call_def waitCallsLp_def)
  qed
qed

lemma waitWhileBusyLp_stuck: "False \<notin> set bs \<Longrightarrow> waitWhileBusyLp bs s = None"
  by (induction bs arbitrary: s) auto

subsection \<open>One iteration, mode by mode\<close>

lemma timerCalls_append: "timerCalls (cs @ ds) = timerCalls cs @ timerCalls ds"
  by (induction cs rule: timerCalls.induct) simp_all

lemma timerCalls_wait_rounds:
  "timerCalls (concat (replicate n
      [Cy_CapSense_IsBusy, Cy_SysPm_CpuEnterDeepSleep,
       Cy_SysLib_ExitCriticalSection, Cy_SysLib_EnterCriticalSection])) = []"
  by (induction n) simp_all

lemma timerCalls_wait_rounds_lp:
  "timerCalls (concat (replicate n [Cy_CapSense_IsBusy, Cy_SysPm_CpuEnterDeepSleep])) = []"
  by (induction n) simp_all

lemma timerCalls_waitCalls: "timerCalls (waitCalls bs) = []"
  by (simp add: waitCalls_def timerCalls_append timerCalls_wait_rounds)

lemma timerCalls_waitCallsLp: "timerCalls (waitCallsLp bs) = []"
  by (simp add: waitCallsLp_def timerCalls_append timerCalls_wait_rounds_lp)

lemma step_ACTIVE_MODE:
  assumes "appState s = ACTIVE_MODE" and "False \<in> set (busy x)"
  shows "step s x = Some (Inr
    (if anyWidgetActive x then
       s\<lparr>appStateTimeoutCount := 0,
         calls := calls s @ [Cy_CapSense_ScanAllSlots, Cy_SysLib_EnterCriticalSection]
           @ waitCalls (busy x)
           @ [Cy_SysLib_ExitCriticalSection, Cy_CapSense_ProcessAllWidgets,
              Cy_CapSense_IsAnyWidgetActive, UpdateLeds, Cy_CapSense_RunTuner]\<rparr>
     else if ACTIVE_MODE_TIMEOUT < appStateTimeoutCount s + 1 then
       s\<lparr>appState := ALR_MODE, appStateTimeoutCount := 0, msclpTimer := ALR_MODE_TIMER,
         calls := calls s @ [Cy_CapSense_ScanAllSlots, Cy_SysLib_EnterCriticalSection]
           @ waitCalls (busy x)
           @ [Cy_SysLib_ExitCriticalSection, Cy_CapSense_ProcessAllWidgets,
              Cy_CapSense_IsAnyWidgetActive, Cy_CapSense_ConfigureMsclpTimer ALR_MODE_TIMER,
              UpdateLeds, Cy_CapSense_RunTuner]\<rparr>
     else
       s\<lparr>appStateTimeoutCount := appStateTimeoutCount s + 1,
         calls := calls s @ [Cy_CapSense_ScanAllSlots, Cy_SysLib_EnterCriticalSection]
           @ waitCalls (busy x)
           @ [Cy_SysLib_ExitCriticalSection, Cy_CapSense_ProcessAllWidgets,
              Cy_CapSense_IsAnyWidgetActive, UpdateLeds, Cy_CapSense_RunTuner]\<rparr>))"
  using assms
  by (simp add: step_def switchAppState_def activeMode_def waitWhileBusy_complete call_def
      ConfigureMsclpTimer_def TIMEOUT_RESET_def Let_def)

lemma step_ALR_MODE:
  assumes "appState s = ALR_MODE" and "False \<in> set (busy x)"
  shows "step s x = Some (Inr
    (if anyWidgetActive x then
       s\<lparr>appState := ACTIVE_MODE, appStateTimeoutCount := 0, msclpTimer := ACTIVE_MODE_TIMER,
         calls := calls s @ [Cy_CapSense_ScanAllSlots, Cy_SysLib_EnterCriticalSection]
           @ waitCalls (busy x)
           @ [Cy_SysLib_ExitCriticalSection, Cy_CapSense_ProcessAllWidgets,
              Cy_CapSense_IsAnyWidgetActive, Cy_CapSense_ConfigureMsclpTimer ACTIVE_MODE_TIMER,
              UpdateLeds, Cy_CapSense_RunTuner]\<rparr>
     else if ALR_MODE_TIMEOUT < appStateTimeoutCount s + 1 then
       s\<lparr>appState := WOT_MODE, appStateTimeoutCount := 0,
         calls := calls s @ [Cy_CapSense_ScanAllSlots, Cy_SysLib_EnterCriticalSection]
           @ waitCalls (busy x)
           @ [Cy_SysLib_ExitCriticalSection, Cy_CapSense_ProcessAllWidgets,
              Cy_CapSense_IsAnyWidgetActive, UpdateLeds, Cy_CapSense_RunTuner]\<rparr>
     else
       s\<lparr>appStateTimeoutCount := appStateTimeoutCount s + 1,
         calls := calls s @ [Cy_CapSense_ScanAllSlots, Cy_SysLib_EnterCriticalSection]
           @ waitCalls (busy x)
           @ [Cy_SysLib_ExitCriticalSection, Cy_CapSense_ProcessAllWidgets,
              Cy_CapSense_IsAnyWidgetActive, UpdateLeds, Cy_CapSense_RunTuner]\<rparr>))"
  using assms
  by (simp add: step_def switchAppState_def alrMode_def waitWhileBusy_complete call_def
      ConfigureMsclpTimer_def TIMEOUT_RESET_def Let_def ACTIVE_MODE_def ALR_MODE_def)

lemma step_WOT_MODE:
  assumes "appState s = WOT_MODE" and "False \<in> set (busy x)"
  shows "step s x = Some (Inr
    (if anyLpWidgetActive x then
       s\<lparr>appState := ACTIVE_MODE, appStateTimeoutCount := 0, msclpTimer := ACTIVE_MODE_TIMER,
         calls := calls s @ [Cy_CapSense_ScanAllLpSlots] @ waitCallsLp (busy x)
           @ [Cy_CapSense_ProcessWidget_LOWPOWER0, Cy_CapSense_IsAnyLpWidgetActive,
              Cy_CapSense_ConfigureMsclpTimer ACTIVE_MODE_TIMER,
              UpdateLeds, Cy_CapSense_RunTuner]\<rparr>
     else
       s\<lparr>appState := ALR_MODE, appStateTimeoutCount := 0, msclpTimer := ALR_MODE_TIMER,
         calls := calls s @ [Cy_CapSense_ScanAllLpSlots] @ waitCallsLp (busy x)
           @ [Cy_CapSense_ProcessWidget_LOWPOWER0, Cy_CapSense_IsAnyLpWidgetActive,
              Cy_CapSense_ConfigureMsclpTimer ALR_MODE_TIMER,
              UpdateLeds, Cy_CapSense_RunTuner]\<rparr>))"
  using assms
  by (simp add: step_def switchAppState_def wotMode_def waitWhileBusyLp_complete call_def
      ConfigureMsclpTimer_def TIMEOUT_RESET_def Let_def ACTIVE_MODE_def ALR_MODE_def WOT_MODE_def)

lemma step_stuck:
  assumes "False \<notin> set (busy x)"
    and "appState s = ACTIVE_MODE \<or> appState s = ALR_MODE \<or> appState s = WOT_MODE"
  shows "step s x = None"
  using assms
  by (auto simp add: step_def switchAppState_def activeMode_def alrMode_def wotMode_def
      waitWhileBusy_stuck waitWhileBusyLp_stuck)

lemma set_waitCallsLp:
  "set (waitCallsLp bs) \<subseteq> {Cy_CapSense_IsBusy, Cy_SysPm_CpuEnterDeepSleep}"
  by (auto simp add: waitCallsLp_def split: if_splits)

subsection \<open>The invariant is kept\<close>

lemma modes_distinct:
  "ACTIVE_MODE \<noteq> ALR_MODE" "ACTIVE_MODE \<noteq> WOT_MODE" "ALR_MODE \<noteq> WOT_MODE"
  "ALR_MODE \<noteq> ACTIVE_MODE" "WOT_MODE \<noteq> ACTIVE_MODE" "WOT_MODE \<noteq> ALR_MODE"
  by (simp_all add: ACTIVE_MODE_def ALR_MODE_def WOT_MODE_def)

lemma counter_inv_initial: "counter_inv initial"
  by (simp add: counter_inv_def initial_def)

lemma step_counter_inv:
  assumes "counter_inv s" and "False \<in> set (busy x)"
  shows "\<exists>s'. step s x = Some (Inr s') \<and> counter_inv s'"
proof -
  from assms(1) consider
      (active) "appState s = ACTIVE_MODE"
    | (alr) "appState s = ALR_MODE"
    | (wot) "appState s = WOT_MODE"
    by (auto simp add: counter_inv_def)
  then show ?thesis
  proof cases
    case active
    show ?thesis
      unfolding step_ACTIVE_MODE [OF active assms(2)] using active
      by (simp add: counter_inv_def modes_distinct not_less)
  next
    case alr
    show ?thesis
      unfolding step_ALR_MODE [OF alr assms(2)] using alr
      by (simp add: counter_inv_def modes_distinct not_less)
  next
    case wot
    show ?thesis
      unfolding step_WOT_MODE [OF wot assms(2)] using wot
      by (simp add: counter_inv_def modes_distinct not_less)
  qed
qed

lemma run_counter_inv:
  assumes "counter_inv s" and "\<forall>x \<in> set xs. False \<in> set (busy x)"
  shows "\<exists>s'. run s xs = Some (Inr s') \<and> counter_inv s'"
  using assms
proof (induction xs arbitrary: s)
  case Nil
  then show ?case by simp
next
  case (Cons x xs)
  from Cons.prems have "False \<in> set (busy x)" by simp
  from step_counter_inv [OF Cons.prems(1) this]
  obtain s1 where s1: "step s x = Some (Inr s1)" "counter_inv s1" by blast
  from Cons.prems have "\<forall>x \<in> set xs. False \<in> set (busy x)" by simp
  from Cons.IH [OF s1(2) this] s1(1) show ?case by simp
qed

lemma step_Some_cases:
  assumes "step s x = Some (Inr s')"
  shows "False \<in> set (busy x) \<and>
         (appState s = ACTIVE_MODE \<or> appState s = ALR_MODE \<or> appState s = WOT_MODE)"
proof -
  have m: "appState s = ACTIVE_MODE \<or> appState s = ALR_MODE \<or> appState s = WOT_MODE"
    using assms by (auto simp add: step_def switchAppState_def split: if_splits)
  moreover have "False \<in> set (busy x)"
    using step_stuck [OF _ m, of x] assms by auto
  ultimately show ?thesis by simp
qed

lemma mode_change_resets:
  assumes "step s x = Some (Inr s')" and "appState s' \<noteq> appState s"
  shows "appStateTimeoutCount s' = 0"
proof -
  from step_Some_cases [OF assms(1)] have b: "False \<in> set (busy x)"
    and m: "appState s = ACTIVE_MODE \<or> appState s = ALR_MODE \<or> appState s = WOT_MODE"
    by simp_all
  from m show ?thesis
  proof (elim disjE)
    assume a: "appState s = ACTIVE_MODE"
    from assms show ?thesis
      unfolding step_ACTIVE_MODE [OF a b] using a by (auto split: if_splits)
  next
    assume a: "appState s = ALR_MODE"
    from assms show ?thesis
      unfolding step_ALR_MODE [OF a b] using a by (auto split: if_splits)
  next
    assume a: "appState s = WOT_MODE"
    from assms show ?thesis
      unfolding step_WOT_MODE [OF a b] using a by (auto split: if_splits)
  qed
qed

lemma mode_change_configures:
  assumes "step t y = Some (Inr t')" and "appState t' \<noteq> appState t"
    and "\<not> (appState t = ALR_MODE \<and> appState t' = WOT_MODE)"
  shows "timerCalls (calls t') = timerCalls (calls t) @ [msclpTimer t']"
proof -
  from step_Some_cases [OF assms(1)] have b: "False \<in> set (busy y)"
    and m: "appState t = ACTIVE_MODE \<or> appState t = ALR_MODE \<or> appState t = WOT_MODE"
    by simp_all
  from m show ?thesis
  proof (elim disjE)
    assume a: "appState t = ACTIVE_MODE"
    from assms show ?thesis
      unfolding step_ACTIVE_MODE [OF a b] using a
      by (auto simp add: timerCalls_append timerCalls_waitCalls split: if_splits)
  next
    assume a: "appState t = ALR_MODE"
    from assms show ?thesis
      unfolding step_ALR_MODE [OF a b] using a
      by (auto simp add: timerCalls_append timerCalls_waitCalls split: if_splits)
  next
    assume a: "appState t = WOT_MODE"
    from assms show ?thesis
      unfolding step_WOT_MODE [OF a b] using a
      by (auto simp add: timerCalls_append timerCalls_waitCallsLp split: if_splits)
  qed
qed

lemma incremented_within_bound:
  "c \<le> ACTIVE_MODE_TIMEOUT \<Longrightarrow> c + 1 \<le> ACTIVE_MODE_TIMEOUT + 1"
  "c \<le> ALR_MODE_TIMEOUT \<Longrightarrow> c + 1 \<le> ALR_MODE_TIMEOUT + 1"
  unfolding ACTIVE_MODE_TIMEOUT_value ALR_MODE_TIMEOUT_value by unat_arith+

section \<open>The claims about the Deep Sleep callback\<close>

text \<open>
  C5. For each of the four callback modes \<^verbatim>\<open>CY_SYSPM_CHECK_READY\<close>,
  \<^verbatim>\<open>CY_SYSPM_CHECK_FAIL\<close>, \<^verbatim>\<open>CY_SYSPM_BEFORE_TRANSITION\<close> and
  \<^verbatim>\<open>CY_SYSPM_AFTER_TRANSITION\<close>, \<open>DeepSleepCallback\<close> returns
  \<^verbatim>\<open>CY_SYSPM_SUCCESS\<close>, whatever the drive mode of the pin; the readiness check never
  answers \<^verbatim>\<open>CY_SYSPM_FAIL\<close>.
\<close>

theorem DeepSleepCallback_four_phases:
  "fst (DeepSleepCallback dm CY_SYSPM_CHECK_READY) = CY_SYSPM_SUCCESS \<and>
   fst (DeepSleepCallback dm CY_SYSPM_CHECK_FAIL) = CY_SYSPM_SUCCESS \<and>
   fst (DeepSleepCallback dm CY_SYSPM_BEFORE_TRANSITION) = CY_SYSPM_SUCCESS \<and>
   fst (DeepSleepCallback dm CY_SYSPM_AFTER_TRANSITION) = CY_SYSPM_SUCCESS \<and>
   fst (DeepSleepCallback dm CY_SYSPM_CHECK_READY) \<noteq> CY_SYSPM_FAIL"
  by simp

text \<open>
  C10. \<open>DeepSleepCallback\<close> returns \<^verbatim>\<open>CY_SYSPM_SUCCESS\<close> for every value of its mode
  argument, the values of the \<^verbatim>\<open>default\<close> label included: the initial
  \<^verbatim>\<open>CY_SYSPM_FAIL\<close> of \<^verbatim>\<open>retValue\<close> is never returned.
\<close>

theorem DeepSleepCallback_never_fails:
  "fst (DeepSleepCallback dm mode) = CY_SYSPM_SUCCESS"
  by (cases mode) simp_all

text \<open>
  C8, as stated: the drive mode of the MOSI pin after the \<^verbatim>\<open>CY_SYSPM_BEFORE_TRANSITION\<close>
  branch followed by the \<^verbatim>\<open>CY_SYSPM_AFTER_TRANSITION\<close> branch equals the drive mode
  before, for every starting drive mode. It fails for a pin that starts in
  \<^verbatim>\<open>CY_GPIO_DM_ANALOG\<close>: the pin ends in \<^verbatim>\<open>CY_GPIO_DM_STRONG_IN_OFF\<close>.
\<close>

theorem transition_roundtrip_counterexample:
  "snd (DeepSleepCallback
         (snd (DeepSleepCallback CY_GPIO_DM_ANALOG CY_SYSPM_BEFORE_TRANSITION))
         CY_SYSPM_AFTER_TRANSITION) \<noteq> CY_GPIO_DM_ANALOG"
  by simp

text \<open>
  C8, amended: after the \<^verbatim>\<open>CY_SYSPM_BEFORE_TRANSITION\<close> branch followed by the
  \<^verbatim>\<open>CY_SYSPM_AFTER_TRANSITION\<close> branch the drive mode of the MOSI pin is
  \<^verbatim>\<open>CY_GPIO_DM_STRONG_IN_OFF\<close>, whatever it was before; the pair restores the
  starting drive mode exactly when the pin started in \<^verbatim>\<open>CY_GPIO_DM_STRONG_IN_OFF\<close>.
\<close>

theorem transition_roundtrip:
  "snd (DeepSleepCallback (snd (DeepSleepCallback dm CY_SYSPM_BEFORE_TRANSITION))
         CY_SYSPM_AFTER_TRANSITION) = CY_GPIO_DM_STRONG_IN_OFF \<and>
   (snd (DeepSleepCallback (snd (DeepSleepCallback dm CY_SYSPM_BEFORE_TRANSITION))
         CY_SYSPM_AFTER_TRANSITION) = dm \<longleftrightarrow> dm = CY_GPIO_DM_STRONG_IN_OFF)"
  by auto

section \<open>The claims about the scheduler loop\<close>

text \<open>
  C1, as stated: in every mode the counter is 0 after an iteration whose sample reports
  activity and one more than before after an iteration whose sample reports none. It
  fails in \<^verbatim>\<open>WOT_MODE\<close>: starting with a counter of 0, an iteration with no activity
  of any widget leaves the counter at 0, not at 1. (It fails as well in
  \<^verbatim>\<open>ACTIVE_MODE\<close> and \<^verbatim>\<open>ALR_MODE\<close> on the iteration that reaches the timeout,
  where the counter is reset.)
\<close>

theorem counter_step_counterexample:
  "step \<lparr>appState = WOT_MODE, appStateTimeoutCount = 0, msclpTimer = ALR_MODE_TIMER, calls = []\<rparr>
        \<lparr>busy = [False], anyWidgetActive = False, anyLpWidgetActive = False\<rparr>
     = Some (Inr \<lparr>appState = ALR_MODE, appStateTimeoutCount = 0, msclpTimer = ALR_MODE_TIMER,
                  calls = [Cy_CapSense_ScanAllLpSlots, Cy_CapSense_IsBusy,
                           Cy_CapSense_ProcessWidget_LOWPOWER0, Cy_CapSense_IsAnyLpWidgetActive,
                           Cy_CapSense_ConfigureMsclpTimer ALR_MODE_TIMER,
                           UpdateLeds, Cy_CapSense_RunTuner]\<rparr>) \<and>
   appStateTimeoutCount
     \<lparr>appState = ALR_MODE, appStateTimeoutCount = 0, msclpTimer = ALR_MODE_TIMER,
      calls = [Cy_CapSense_ScanAllLpSlots, Cy_CapSense_IsBusy,
               Cy_CapSense_ProcessWidget_LOWPOWER0, Cy_CapSense_IsAnyLpWidgetActive,
               Cy_CapSense_ConfigureMsclpTimer ALR_MODE_TIMER,
               UpdateLeds, Cy_CapSense_RunTuner]\<rparr>
     \<noteq> appStateTimeoutCount
         \<lparr>appState = WOT_MODE, appStateTimeoutCount = 0, msclpTimer = ALR_MODE_TIMER, calls = []\<rparr>
       + 1"
  by (simp add: step_def switchAppState_def wotMode_def call_def ConfigureMsclpTimer_def
      TIMEOUT_RESET_def modes_distinct)

text \<open>
  C1, amended: after an iteration whose scan completes, the counter is 0 when the sample
  reports activity, in every mode. When it reports none, the counter of
  \<^verbatim>\<open>ACTIVE_MODE\<close> and \<^verbatim>\<open>ALR_MODE\<close> is one more than before (a 32-bit increment),
  unless that value exceeds the timeout of the mode, in which case the counter is 0;
  in \<^verbatim>\<open>WOT_MODE\<close> the counter is 0 after the iteration whether or not activity is
  reported.
\<close>

theorem counter_per_cycle:
  assumes "False \<in> set (busy x)"
    and "appState s = ACTIVE_MODE \<or> appState s = ALR_MODE \<or> appState s = WOT_MODE"
  shows "\<exists>s'. step s x = Some (Inr s') \<and>
           (appState s = ACTIVE_MODE \<longrightarrow>
              appStateTimeoutCount s' =
                (if anyWidgetActive x then 0
                 else if ACTIVE_MODE_TIMEOUT < appStateTimeoutCount s + 1 then 0
                 else appStateTimeoutCount s + 1)) \<and>
           (appState s = ALR_MODE \<longrightarrow>
              appStateTimeoutCount s' =
                (if anyWidgetActive x then 0
                 else if ALR_MODE_TIMEOUT < appStateTimeoutCount s + 1 then 0
                 else appStateTimeoutCount s + 1)) \<and>
           (appState s = WOT_MODE \<longrightarrow> appStateTimeoutCount s' = 0)"
  using assms(2)
proof (elim disjE)
  assume a: "appState s = ACTIVE_MODE"
  show ?thesis
    unfolding step_ACTIVE_MODE [OF a assms(1)] using a by (simp add: modes_distinct)
next
  assume a: "appState s = ALR_MODE"
  show ?thesis
    unfolding step_ALR_MODE [OF a assms(1)] using a by (simp add: modes_distinct)
next
  assume a: "appState s = WOT_MODE"
  show ?thesis
    unfolding step_WOT_MODE [OF a assms(1)] using a by (simp add: modes_distinct)
qed

theorem counter_per_cycle_witness:
  "False \<in> set (busy \<lparr>busy = [True, False], anyWidgetActive = False, anyLpWidgetActive = False\<rparr>) \<and>
   appState \<lparr>appState = ACTIVE_MODE, appStateTimeoutCount = 5, msclpTimer = ACTIVE_MODE_TIMER,
             calls = []\<rparr> = ACTIVE_MODE \<and>
   (\<exists>s'. step \<lparr>appState = ACTIVE_MODE, appStateTimeoutCount = 5, msclpTimer = ACTIVE_MODE_TIMER,
                calls = []\<rparr>
              \<lparr>busy = [True, False], anyWidgetActive = False, anyLpWidgetActive = False\<rparr>
            = Some (Inr s') \<and>
          appStateTimeoutCount s' = 6)"
  using counter_per_cycle
    [of "\<lparr>busy = [True, False], anyWidgetActive = False, anyLpWidgetActive = False\<rparr>"
        "\<lparr>appState = ACTIVE_MODE, appStateTimeoutCount = 5, msclpTimer = ACTIVE_MODE_TIMER,
          calls = []\<rparr>"]
  by (auto simp add: ACTIVE_MODE_TIMEOUT_value modes_distinct)


text \<open>
  C2, as stated: from \<^verbatim>\<open>ACTIVE_MODE\<close> with a counter of \<^verbatim>\<open>ACTIVE_MODE_TIMEOUT\<close> - 1,
  an iteration with no activity ends in \<^verbatim>\<open>ALR_MODE\<close> with a counter of 0 and the
  timer configured to \<^verbatim>\<open>ALR_MODE_TIMER\<close>. It does not: the counter becomes
  \<^verbatim>\<open>ACTIVE_MODE_TIMEOUT\<close>, which does not exceed the timeout, the mode stays
  \<^verbatim>\<open>ACTIVE_MODE\<close> and the timer is not configured.
\<close>

theorem active_timeout_counterexample:
  "step \<lparr>appState = ACTIVE_MODE, appStateTimeoutCount = ACTIVE_MODE_TIMEOUT - 1,
         msclpTimer = ACTIVE_MODE_TIMER, calls = []\<rparr>
        \<lparr>busy = [False], anyWidgetActive = False, anyLpWidgetActive = False\<rparr>
     = Some (Inr \<lparr>appState = ACTIVE_MODE, appStateTimeoutCount = ACTIVE_MODE_TIMEOUT,
                  msclpTimer = ACTIVE_MODE_TIMER,
                  calls = [Cy_CapSense_ScanAllSlots, Cy_SysLib_EnterCriticalSection,
                           Cy_CapSense_IsBusy, Cy_SysLib_ExitCriticalSection,
                           Cy_CapSense_ProcessAllWidgets, Cy_CapSense_IsAnyWidgetActive,
                           UpdateLeds, Cy_CapSense_RunTuner]\<rparr>) \<and>
   ACTIVE_MODE \<noteq> ALR_MODE \<and> ACTIVE_MODE_TIMEOUT \<noteq> 0 \<and> ACTIVE_MODE_TIMER \<noteq> ALR_MODE_TIMER"
  by (simp add: step_def switchAppState_def activeMode_def call_def ConfigureMsclpTimer_def
      TIMEOUT_RESET_def modes_distinct ACTIVE_MODE_TIMEOUT_value ACTIVE_MODE_TIMER_value
      ALR_MODE_TIMER_value)

text \<open>
  C2, amended: from \<^verbatim>\<open>ACTIVE_MODE\<close>, an iteration with no activity whose scan
  completes ends in \<^verbatim>\<open>ALR_MODE\<close> exactly when the incremented counter exceeds
  \<^verbatim>\<open>ACTIVE_MODE_TIMEOUT\<close>; then the counter is 0 and the timer has been configured,
  once, to \<^verbatim>\<open>ALR_MODE_TIMER\<close>. This is the case when the counter was
  \<^verbatim>\<open>ACTIVE_MODE_TIMEOUT\<close> before the iteration. Otherwise, and so when the counter
  was \<^verbatim>\<open>ACTIVE_MODE_TIMEOUT\<close> - 1, the mode stays \<^verbatim>\<open>ACTIVE_MODE\<close>, the counter
  is incremented and the timer is left as it was.
\<close>

theorem active_timeout_transition:
  assumes "appState s = ACTIVE_MODE" and "\<not> anyWidgetActive x" and "False \<in> set (busy x)"
  shows "\<exists>s'. step s x = Some (Inr s') \<and>
           (appState s' = ALR_MODE \<longleftrightarrow> ACTIVE_MODE_TIMEOUT < appStateTimeoutCount s + 1) \<and>
           (ACTIVE_MODE_TIMEOUT < appStateTimeoutCount s + 1 \<longrightarrow>
              appState s' = ALR_MODE \<and> appStateTimeoutCount s' = 0 \<and>
              msclpTimer s' = ALR_MODE_TIMER \<and>
              timerCalls (calls s') = timerCalls (calls s) @ [ALR_MODE_TIMER]) \<and>
           (\<not> ACTIVE_MODE_TIMEOUT < appStateTimeoutCount s + 1 \<longrightarrow>
              appState s' = ACTIVE_MODE \<and>
              appStateTimeoutCount s' = appStateTimeoutCount s + 1 \<and>
              msclpTimer s' = msclpTimer s \<and>
              timerCalls (calls s') = timerCalls (calls s)) \<and>
           (appStateTimeoutCount s = ACTIVE_MODE_TIMEOUT \<longrightarrow>
              appState s' = ALR_MODE \<and> appStateTimeoutCount s' = 0 \<and>
              msclpTimer s' = ALR_MODE_TIMER) \<and>
           (appStateTimeoutCount s = ACTIVE_MODE_TIMEOUT - 1 \<longrightarrow>
              appState s' = ACTIVE_MODE \<and> appStateTimeoutCount s' = ACTIVE_MODE_TIMEOUT)"
proof -
  have at: "appStateTimeoutCount s = ACTIVE_MODE_TIMEOUT
              \<Longrightarrow> ACTIVE_MODE_TIMEOUT < appStateTimeoutCount s + 1"
    by (simp add: ACTIVE_MODE_TIMEOUT_value)
  have below: "appStateTimeoutCount s = ACTIVE_MODE_TIMEOUT - 1
              \<Longrightarrow> \<not> ACTIVE_MODE_TIMEOUT < appStateTimeoutCount s + 1"
    by (simp add: ACTIVE_MODE_TIMEOUT_value)
  show ?thesis
    unfolding step_ACTIVE_MODE [OF assms(1,3)] using assms(1,2) at below
    by (auto simp add: modes_distinct timerCalls_append timerCalls_waitCalls)
qed

theorem active_timeout_transition_witness:
  "appState \<lparr>appState = ACTIVE_MODE, appStateTimeoutCount = ACTIVE_MODE_TIMEOUT,
             msclpTimer = ACTIVE_MODE_TIMER, calls = []\<rparr> = ACTIVE_MODE \<and>
   \<not> anyWidgetActive \<lparr>busy = [False], anyWidgetActive = False, anyLpWidgetActive = False\<rparr> \<and>
   False \<in> set (busy \<lparr>busy = [False], anyWidgetActive = False, anyLpWidgetActive = False\<rparr>) \<and>
   (\<exists>s'. step \<lparr>appState = ACTIVE_MODE, appStateTimeoutCount = ACTIVE_MODE_TIMEOUT,
                msclpTimer = ACTIVE_MODE_TIMER, calls = []\<rparr>
              \<lparr>busy = [False], anyWidgetActive = False, anyLpWidgetActive = False\<rparr>
            = Some (Inr s') \<and>
          appState s' = ALR_MODE \<and> appStateTimeoutCount s' = 0 \<and>
          msclpTimer s' = ALR_MODE_TIMER \<and>
          timerCalls (calls s') = [ALR_MODE_TIMER])"
  using active_timeout_transition
    [of "\<lparr>appState = ACTIVE_MODE, appStateTimeoutCount = ACTIVE_MODE_TIMEOUT,
          msclpTimer = ACTIVE_MODE_TIMER, calls = []\<rparr>"
        "\<lparr>busy = [False], anyWidgetActive = False, anyLpWidgetActive = False\<rparr>"]
  by (auto simp add: ACTIVE_MODE_TIMEOUT_value)

text \<open>
  C7. When \<^verbatim>\<open>appState\<close> holds a value other than \<^verbatim>\<open>ACTIVE_MODE\<close>, \<^verbatim>\<open>ALR_MODE\<close>
  and \<^verbatim>\<open>WOT_MODE\<close>, the iteration ends in the failed assertion of the \<^verbatim>\<open>default\<close>
  label: no handler of a valid mode runs, no next state is produced, and the loop does
  not go on to the samples that follow.
\<close>

theorem unknown_mode_asserts:
  assumes "appState s \<noteq> ACTIVE_MODE" and "appState s \<noteq> ALR_MODE" and "appState s \<noteq> WOT_MODE"
  shows "step s x = Some (Inl AssertFailed) \<and> run s (x # xs) = Some (Inl AssertFailed)"
  using assms by (simp add: step_def switchAppState_def)

theorem unknown_mode_asserts_witness:
  "appState \<lparr>appState = 4, appStateTimeoutCount = 7, msclpTimer = ACTIVE_MODE_TIMER, calls = []\<rparr>
     \<noteq> ACTIVE_MODE \<and>
   appState \<lparr>appState = 4, appStateTimeoutCount = 7, msclpTimer = ACTIVE_MODE_TIMER, calls = []\<rparr>
     \<noteq> ALR_MODE \<and>
   appState \<lparr>appState = 4, appStateTimeoutCount = 7, msclpTimer = ACTIVE_MODE_TIMER, calls = []\<rparr>
     \<noteq> WOT_MODE \<and>
   step \<lparr>appState = 4, appStateTimeoutCount = 7, msclpTimer = ACTIVE_MODE_TIMER, calls = []\<rparr>
        \<lparr>busy = [False], anyWidgetActive = True, anyLpWidgetActive = True\<rparr>
     = Some (Inl AssertFailed) \<and>
   run \<lparr>appState = 4, appStateTimeoutCount = 7, msclpTimer = ACTIVE_MODE_TIMER, calls = []\<rparr>
       [\<lparr>busy = [False], anyWidgetActive = True, anyLpWidgetActive = True\<rparr>,
        \<lparr>busy = [False], anyWidgetActive = False, anyLpWidgetActive = False\<rparr>]
     = Some (Inl AssertFailed)"
  using unknown_mode_asserts
    [of "\<lparr>appState = 4, appStateTimeoutCount = 7, msclpTimer = ACTIVE_MODE_TIMER, calls = []\<rparr>"
        "\<lparr>busy = [False], anyWidgetActive = True, anyLpWidgetActive = True\<rparr>"
        "[\<lparr>busy = [False], anyWidgetActive = False, anyLpWidgetActive = False\<rparr>]"]
  by (simp add: ACTIVE_MODE_def ALR_MODE_def WOT_MODE_def)

section \<open>The claim about the timer reload values\<close>

text \<open>
  C4, as stated: the reload value equals the maximum of the minimum tick and the period
  less the scan and process time. It fails for a refresh rate of 343 Hz with the
  configured scan and process times: the period is 2915, one more than 2914, the block
  selects 1, and the maximum with the minimum tick is 25.
\<close>

theorem timer_reload_counterexample:
  "MODE_TIMER 343 2891 23 = Inr 1 \<and> TimerReload_spec 343 2891 23 = 25"
  by (simp add: MODE_TIMER_def TimerReload_spec_def TIME_IN_US_def MINIMUM_TIMER_def ILO_FREQ_def)

text \<open>
  C4, amended: with the configured macros \<^verbatim>\<open>ACTIVE_MODE_TIMER\<close> is 7812 - 2914 = 4898
  and \<^verbatim>\<open>ALR_MODE_TIMER\<close> is 31250 - 2914 = 28336, and both equal the maximum of the
  minimum tick and the period less the scan and process time. For any configuration
  whose period exceeds the scan and process time, the reload value is the period less
  the scan and process time; it is positive, and it equals that maximum exactly when it
  is at least the minimum tick. Nothing is said of a configuration whose period does
  not exceed the scan and process time.
\<close>

theorem timer_reload:
  "ACTIVE_MODE_TIMER = 4898 \<and> ALR_MODE_TIMER = 28336 \<and>
   uint ACTIVE_MODE_TIMER
     = TimerReload_spec ACTIVE_MODE_REFRESH_RATE ACTIVE_MODE_FRAME_SCAN_TIME ACTIVE_MODE_PROCESS_TIME \<and>
   uint ALR_MODE_TIMER
     = TimerReload_spec ALR_MODE_REFRESH_RATE ALR_MODE_FRAME_SCAN_TIME ALR_MODE_PROCESS_TIME \<and>
   (refresh_rate \<noteq> 0 \<and>
    unat frame_scan_time + unat process_time < unat (TIME_IN_US div refresh_rate) \<longrightarrow>
      (\<exists>v. MODE_TIMER refresh_rate frame_scan_time process_time = Inr v \<and>
           0 < v \<and>
           uint v = uint (TIME_IN_US div refresh_rate)
                      - (uint frame_scan_time + uint process_time) \<and>
           (uint v = TimerReload_spec refresh_rate frame_scan_time process_time
              \<longleftrightarrow> MINIMUM_TIMER \<le> v)))"
proof (intro conjI impI)
  show "ACTIVE_MODE_TIMER = 4898" by (rule ACTIVE_MODE_TIMER_value)
  show "ALR_MODE_TIMER = 28336" by (rule ALR_MODE_TIMER_value)
  show "uint ACTIVE_MODE_TIMER
     = TimerReload_spec ACTIVE_MODE_REFRESH_RATE ACTIVE_MODE_FRAME_SCAN_TIME ACTIVE_MODE_PROCESS_TIME"
    by (simp add: ACTIVE_MODE_TIMER_value TimerReload_spec_def MINIMUM_TIMER_value TIME_IN_US_def
        ACTIVE_MODE_REFRESH_RATE_def ACTIVE_MODE_FRAME_SCAN_TIME_def ACTIVE_MODE_PROCESS_TIME_def)
  show "uint ALR_MODE_TIMER
     = TimerReload_spec ALR_MODE_REFRESH_RATE ALR_MODE_FRAME_SCAN_TIME ALR_MODE_PROCESS_TIME"
    by (simp add: ALR_MODE_TIMER_value TimerReload_spec_def MINIMUM_TIMER_value TIME_IN_US_def
        ALR_MODE_REFRESH_RATE_def ALR_MODE_FRAME_SCAN_TIME_def ALR_MODE_PROCESS_TIME_def)
next
  assume a: "refresh_rate \<noteq> 0 \<and>
    unat frame_scan_time + unat process_time < unat (TIME_IN_US div refresh_rate)"
  let ?v = "TIME_IN_US div refresh_rate - (frame_scan_time + process_time)"
  from a have nz: "refresh_rate \<noteq> 0"
    and lt: "unat frame_scan_time + unat process_time < unat (TIME_IN_US div refresh_rate)"
    by simp_all
  note m = MODE_TIMER_margin [OF nz lt]
  have "uint ?v = TimerReload_spec refresh_rate frame_scan_time process_time
          \<longleftrightarrow> MINIMUM_TIMER \<le> ?v"
    unfolding TimerReload_spec_def m(2) [symmetric] word_le_def by linarith
  with m show "\<exists>v. MODE_TIMER refresh_rate frame_scan_time process_time = Inr v \<and>
           0 < v \<and>
           uint v = uint (TIME_IN_US div refresh_rate)
                      - (uint frame_scan_time + uint process_time) \<and>
           (uint v = TimerReload_spec refresh_rate frame_scan_time process_time
              \<longleftrightarrow> MINIMUM_TIMER \<le> v)"
    by blast
qed

theorem timer_reload_witness:
  "(128 :: u32) \<noteq> 0 \<and> unat (2891 :: u32) + unat (23 :: u32) < unat (TIME_IN_US div 128) \<and>
   (\<exists>v. MODE_TIMER 128 2891 23 = Inr v \<and> 0 < v \<and>
        uint v = uint (TIME_IN_US div 128) - (uint (2891 :: u32) + uint (23 :: u32)) \<and>
        (uint v = TimerReload_spec 128 2891 23 \<longleftrightarrow> MINIMUM_TIMER \<le> v))"
  using timer_reload [of 128 2891 23] by (simp add: TIME_IN_US_def)

text \<open>
  C3. An iteration that starts in \<^verbatim>\<open>WOT_MODE\<close> and whose scan completes makes one
  low-power scan, waits for it with polls and deep sleeps only, processes the low-power
  widget once and asks once whether a low-power widget is active. It then leaves
  \<^verbatim>\<open>WOT_MODE\<close>: for \<^verbatim>\<open>ACTIVE_MODE\<close> with the timer configured to
  \<^verbatim>\<open>ACTIVE_MODE_TIMER\<close> when a low-power widget is active, for \<^verbatim>\<open>ALR_MODE\<close> with
  the timer configured to \<^verbatim>\<open>ALR_MODE_TIMER\<close> otherwise.
\<close>

theorem wot_cycle:
  assumes "appState s = WOT_MODE" and "False \<in> set (busy x)"
  shows "\<exists>s'. step s x = Some (Inr s') \<and>
           appState s' = (if anyLpWidgetActive x then ACTIVE_MODE else ALR_MODE) \<and>
           msclpTimer s' = (if anyLpWidgetActive x then ACTIVE_MODE_TIMER else ALR_MODE_TIMER) \<and>
           appState s' \<noteq> WOT_MODE \<and>
           calls s' = calls s @ [Cy_CapSense_ScanAllLpSlots] @ waitCallsLp (busy x)
             @ [Cy_CapSense_ProcessWidget_LOWPOWER0, Cy_CapSense_IsAnyLpWidgetActive,
                Cy_CapSense_ConfigureMsclpTimer (msclpTimer s'),
                UpdateLeds, Cy_CapSense_RunTuner] \<and>
           set (waitCallsLp (busy x)) \<subseteq> {Cy_CapSense_IsBusy, Cy_SysPm_CpuEnterDeepSleep}"
  unfolding step_WOT_MODE [OF assms]
  by (simp add: modes_distinct set_waitCallsLp)

theorem wot_cycle_witness:
  "appState \<lparr>appState = WOT_MODE, appStateTimeoutCount = 0, msclpTimer = ALR_MODE_TIMER, calls = []\<rparr>
     = WOT_MODE \<and>
   False \<in> set (busy \<lparr>busy = [True, True, False], anyWidgetActive = False, anyLpWidgetActive = True\<rparr>) \<and>
   (\<exists>s'. step \<lparr>appState = WOT_MODE, appStateTimeoutCount = 0, msclpTimer = ALR_MODE_TIMER, calls = []\<rparr>
              \<lparr>busy = [True, True, False], anyWidgetActive = False, anyLpWidgetActive = True\<rparr>
            = Some (Inr s') \<and>
          appState s' = ACTIVE_MODE \<and> msclpTimer s' = ACTIVE_MODE_TIMER \<and>
          appState s' \<noteq> WOT_MODE \<and>
          calls s' =
            [Cy_CapSense_ScanAllLpSlots,
             Cy_CapSense_IsBusy, Cy_SysPm_CpuEnterDeepSleep,
             Cy_CapSense_IsBusy, Cy_SysPm_CpuEnterDeepSleep,
             Cy_CapSense_IsBusy,
             Cy_CapSense_ProcessWidget_LOWPOWER0, Cy_CapSense_IsAnyLpWidgetActive,
             Cy_CapSense_ConfigureMsclpTimer ACTIVE_MODE_TIMER,
             UpdateLeds, Cy_CapSense_RunTuner])"
  using wot_cycle
    [of "\<lparr>appState = WOT_MODE, appStateTimeoutCount = 0, msclpTimer = ALR_MODE_TIMER, calls = []\<rparr>"
        "\<lparr>busy = [True, True, False], anyWidgetActive = False, anyLpWidgetActive = True\<rparr>"]
  by (auto simp add: waitCallsLp_def)

text \<open>
  C9. Whatever samples the loop has processed since it was entered with
  \<^verbatim>\<open>appState = ACTIVE_MODE\<close> and a counter of 0 (every scan having completed), the
  loop has not stopped, and the counter is at most \<^verbatim>\<open>ACTIVE_MODE_TIMEOUT\<close> + 1 in
  \<^verbatim>\<open>ACTIVE_MODE\<close> and at most \<^verbatim>\<open>ALR_MODE_TIMEOUT\<close> + 1 in \<^verbatim>\<open>ALR_MODE\<close>, at
  the head of the iteration as well as after the increment the next iteration may make.
  Any next iteration that changes the mode leaves the counter at 0.
\<close>

theorem scheduler_invariant:
  assumes "\<forall>x \<in> set xs. False \<in> set (busy x)"
  shows "\<exists>s. run initial xs = Some (Inr s) \<and>
           (appState s = ACTIVE_MODE \<longrightarrow>
              appStateTimeoutCount s \<le> ACTIVE_MODE_TIMEOUT + 1 \<and>
              appStateTimeoutCount s + 1 \<le> ACTIVE_MODE_TIMEOUT + 1) \<and>
           (appState s = ALR_MODE \<longrightarrow>
              appStateTimeoutCount s \<le> ALR_MODE_TIMEOUT + 1 \<and>
              appStateTimeoutCount s + 1 \<le> ALR_MODE_TIMEOUT + 1) \<and>
           (\<forall>x s'. step s x = Some (Inr s') \<longrightarrow> appState s' \<noteq> appState s
                      \<longrightarrow> appStateTimeoutCount s' = 0)"
proof -
  from run_counter_inv [OF counter_inv_initial assms]
  obtain s where s: "run initial xs = Some (Inr s)" "counter_inv s" by blast
  have a: "ACTIVE_MODE_TIMEOUT \<le> ACTIVE_MODE_TIMEOUT + 1"
    by (simp add: ACTIVE_MODE_TIMEOUT_value)
  have b: "ALR_MODE_TIMEOUT \<le> ALR_MODE_TIMEOUT + 1"
    by (simp add: ALR_MODE_TIMEOUT_value)
  have "appState s = ACTIVE_MODE \<longrightarrow>
          appStateTimeoutCount s \<le> ACTIVE_MODE_TIMEOUT + 1 \<and>
          appStateTimeoutCount s + 1 \<le> ACTIVE_MODE_TIMEOUT + 1"
    using s(2) a incremented_within_bound(1) [of "appStateTimeoutCount s"]
    by (auto simp add: counter_inv_def modes_distinct)
  moreover have "appState s = ALR_MODE \<longrightarrow>
          appStateTimeoutCount s \<le> ALR_MODE_TIMEOUT + 1 \<and>
          appStateTimeoutCount s + 1 \<le> ALR_MODE_TIMEOUT + 1"
    using s(2) b incremented_within_bound(2) [of "appStateTimeoutCount s"]
    by (auto simp add: counter_inv_def modes_distinct)
  moreover have "\<forall>x s'. step s x = Some (Inr s') \<longrightarrow> appState s' \<noteq> appState s
                      \<longrightarrow> appStateTimeoutCount s' = 0"
    using mode_change_resets by blast
  ultimately show ?thesis using s(1) by blast
qed

theorem scheduler_invariant_witness:
  "False \<in> set (busy \<lparr>busy = [True, False], anyWidgetActive = False, anyLpWidgetActive = False\<rparr>) \<and>
   False \<in> set (busy \<lparr>busy = [False], anyWidgetActive = False, anyLpWidgetActive = True\<rparr>) \<and>
   (\<exists>s. run initial [\<lparr>busy = [True, False], anyWidgetActive = False, anyLpWidgetActive = False\<rparr>,
                     \<lparr>busy = [False], anyWidgetActive = False, anyLpWidgetActive = True\<rparr>]
           = Some (Inr s) \<and>
        appState s = ACTIVE_MODE \<and> appStateTimeoutCount s = 2 \<and>
        appStateTimeoutCount s \<le> ACTIVE_MODE_TIMEOUT + 1)"
  using scheduler_invariant
    [of "[\<lparr>busy = [True, False], anyWidgetActive = False, anyLpWidgetActive = False\<rparr>,
          \<lparr>busy = [False], anyWidgetActive = False, anyLpWidgetActive = True\<rparr>]"]
  by (auto simp add: initial_def step_def switchAppState_def activeMode_def call_def
      TIMEOUT_RESET_def ACTIVE_MODE_TIMEOUT_value modes_distinct)


text \<open>
  C6. When an iteration in \<^verbatim>\<open>ALR_MODE\<close> with no activity takes the counter past
  \<^verbatim>\<open>ALR_MODE_TIMEOUT\<close> (its scan having completed), the mode becomes
  \<^verbatim>\<open>WOT_MODE\<close>, the counter is 0, the reload value of the wake-up timer is what it
  was, and the iteration has made no call of \<^verbatim>\<open>Cy_CapSense_ConfigureMsclpTimer\<close>.
  Every other iteration that changes the mode makes exactly one such call, and its
  argument is the reload value the timer holds afterwards.
\<close>

theorem alr_to_wot_keeps_timer:
  assumes "appState s = ALR_MODE" and "\<not> anyWidgetActive x"
    and "ALR_MODE_TIMEOUT < appStateTimeoutCount s + 1" and "False \<in> set (busy x)"
  shows "(\<exists>s'. step s x = Some (Inr s') \<and>
            appState s' = WOT_MODE \<and> appStateTimeoutCount s' = 0 \<and>
            msclpTimer s' = msclpTimer s \<and>
            timerCalls (calls s') = timerCalls (calls s)) \<and>
         (step t y = Some (Inr t') \<and> appState t' \<noteq> appState t \<and>
          \<not> (appState t = ALR_MODE \<and> appState t' = WOT_MODE) \<longrightarrow>
            timerCalls (calls t') = timerCalls (calls t) @ [msclpTimer t'])"
proof
  show "\<exists>s'. step s x = Some (Inr s') \<and>
            appState s' = WOT_MODE \<and> appStateTimeoutCount s' = 0 \<and>
            msclpTimer s' = msclpTimer s \<and>
            timerCalls (calls s') = timerCalls (calls s)"
    unfolding step_ALR_MODE [OF assms(1,4)] using assms(2,3)
    by (simp add: timerCalls_append timerCalls_waitCalls)
  show "step t y = Some (Inr t') \<and> appState t' \<noteq> appState t \<and>
          \<not> (appState t = ALR_MODE \<and> appState t' = WOT_MODE) \<longrightarrow>
            timerCalls (calls t') = timerCalls (calls t) @ [msclpTimer t']"
    using mode_change_configures by blast
qed

theorem alr_to_wot_keeps_timer_witness:
  "appState \<lparr>appState = ALR_MODE, appStateTimeoutCount = ALR_MODE_TIMEOUT,
             msclpTimer = ALR_MODE_TIMER, calls = []\<rparr> = ALR_MODE \<and>
   \<not> anyWidgetActive \<lparr>busy = [True, False], anyWidgetActive = False, anyLpWidgetActive = False\<rparr> \<and>
   ALR_MODE_TIMEOUT
     < appStateTimeoutCount \<lparr>appState = ALR_MODE, appStateTimeoutCount = ALR_MODE_TIMEOUT,
                             msclpTimer = ALR_MODE_TIMER, calls = []\<rparr> + 1 \<and>
   False \<in> set (busy \<lparr>busy = [True, False], anyWidgetActive = False, anyLpWidgetActive = False\<rparr>) \<and>
   (\<exists>s'. step \<lparr>appState = ALR_MODE, appStateTimeoutCount = ALR_MODE_TIMEOUT,
                msclpTimer = ALR_MODE_TIMER, calls = []\<rparr>
              \<lparr>busy = [True, False], anyWidgetActive = False, anyLpWidgetActive = False\<rparr>
            = Some (Inr s') \<and>
          appState s' = WOT_MODE \<and> appStateTimeoutCount s' = 0 \<and>
          msclpTimer s' = ALR_MODE_TIMER \<and> timerCalls (calls s') = []) \<and>
   step \<lparr>appState = WOT_MODE, appStateTimeoutCount = 0, msclpTimer = ALR_MODE_TIMER, calls = []\<rparr>
        \<lparr>busy = [False], anyWidgetActive = False, anyLpWidgetActive = True\<rparr>
     = Some (Inr \<lparr>appState = ACTIVE_MODE, appStateTimeoutCount = 0,
                  msclpTimer = ACTIVE_MODE_TIMER,
                  calls = [Cy_CapSense_ScanAllLpSlots, Cy_CapSense_IsBusy,
                           Cy_CapSense_ProcessWidget_LOWPOWER0, Cy_CapSense_IsAnyLpWidgetActive,
                           Cy_CapSense_ConfigureMsclpTimer ACTIVE_MODE_TIMER,
                           UpdateLeds, Cy_CapSense_RunTuner]\<rparr>) \<and>
   timerCalls [Cy_CapSense_ScanAllLpSlots, Cy_CapSense_IsBusy,
               Cy_CapSense_ProcessWidget_LOWPOWER0, Cy_CapSense_IsAnyLpWidgetActive,
               Cy_CapSense_ConfigureMsclpTimer ACTIVE_MODE_TIMER,
               UpdateLeds, Cy_CapSense_RunTuner] = [ACTIVE_MODE_TIMER]"
  using alr_to_wot_keeps_timer
    [of "\<lparr>appState = ALR_MODE, appStateTimeoutCount = ALR_MODE_TIMEOUT,
          msclpTimer = ALR_MODE_TIMER, calls = []\<rparr>"
        "\<lparr>busy = [True, False], anyWidgetActive = False, anyLpWidgetActive = False\<rparr>"
        "\<lparr>appState = WOT_MODE, appStateTimeoutCount = 0, msclpTimer = ALR_MODE_TIMER, calls = []\<rparr>"
        "\<lparr>busy = [False], anyWidgetActive = False, anyLpWidgetActive = True\<rparr>"
        "\<lparr>appState = ACTIVE_MODE, appStateTimeoutCount = 0,
          msclpTimer = ACTIVE_MODE_TIMER,
          calls = [Cy_CapSense_ScanAllLpSlots, Cy_CapSense_IsBusy,
                   Cy_CapSense_ProcessWidget_LOWPOWER0, Cy_CapSense_IsAnyLpWidgetActive,
                   Cy_CapSense_ConfigureMsclpTimer ACTIVE_MODE_TIMER,
                   UpdateLeds, Cy_CapSense_RunTuner]\<rparr>"]
  by (auto simp add: ALR_MODE_TIMEOUT_value modes_distinct step_def switchAppState_def
      wotMode_def call_def ConfigureMsclpTimer_def TIMEOUT_RESET_def)

end
